theory Spec2Isabelle
  imports Main "HOL-Library.Word"
begin

unbundle bit_operations_syntax

section \<open>EQ platform controller: the state and its collaborators\<close>

text \<open>
  The model follows the sketch with the five menu pages (tracking speed, home speed,
  start/stop, return home, store configuration), function by function and under the
  sketch's names.
  The sketch targets an AVR board (\<^verbatim>\<open>EEPROM.write\<close> without \<^verbatim>\<open>begin\<close>/\<^verbatim>\<open>commit\<close>),
  where \<^verbatim>\<open>int\<close> has 16 bits, \<^verbatim>\<open>unsigned long\<close> 32 bits and \<^verbatim>\<open>uint8_t\<close>,
  \<^verbatim>\<open>int8_t\<close> and \<^verbatim>\<open>byte\<close> 8 bits. A signed comparison reads a word with \<open>sint\<close>, the
  integer promotion of a \<^verbatim>\<open>uint8_t\<close> reads it with \<open>uint\<close>, and an assignment to a
  narrower variable truncates with \<open>word_of_int\<close> or \<open>ucast\<close>.
\<close>

type_synonym int16 = "16 word"
type_synonym uint8 = "8 word"
type_synonym int8 = "8 word"
type_synonym ulong = "32 word"

text \<open>The pins of the \<^verbatim>\<open>#define\<close> lines.\<close>

abbreviation CLK_PIN :: nat where "CLK_PIN \<equiv> 2"
abbreviation SW_PIN :: nat where "SW_PIN \<equiv> 3"
abbreviation DT_PIN :: nat where "DT_PIN \<equiv> 4"
abbreviation HOME_SWITCH_PIN :: nat where "HOME_SWITCH_PIN \<equiv> 6"
abbreviation END_SWITCH_PIN :: nat where "END_SWITCH_PIN \<equiv> 7"

text \<open>
  Calls to the external collaborators, in the order the sketch issues them: the
  AccelStepper object, \<^verbatim>\<open>digitalRead\<close> on a pin, and one entry for each run of
  \<^verbatim>\<open>updateMainScreen\<close> (which only reads the variables and draws).
\<close>

datatype call =
    Stepper_setMaxSpeed int
  | Stepper_setAcceleration int
  | Stepper_setSpeed int
  | Stepper_runSpeed
  | DigitalRead nat
  | Display_update

text \<open>The global variables of the sketch, the EEPROM cells and the log of calls.\<close>

record state =
  editMode :: bool
  lastUpdateEditModeScreen :: ulong
  editModeBlinkDark :: bool
  stepperTrackingSpeed :: int16
  homeSpeed :: int16
  initialStepperTrackingSpeed :: int16
  initialHomeSpeed :: int16
  motorRunning :: int16
  currentPageIndex :: uint8
  eeprom :: "nat \<Rightarrow> 8 word"
  calls :: "call list"

definition stepper_speed_address :: nat where
  "stepper_speed_address = 0"

definition home_speed_address :: nat where
  "home_speed_address = 2"

text \<open>
  What one pass of \<^verbatim>\<open>loop\<close> reads from outside: the two debouncers' \<^verbatim>\<open>fell()\<close>, the
  levels of the data pin and of the two limit switch pins (\<open>True\<close> is HIGH; the switches
  are active low), and the two readings of \<^verbatim>\<open>millis()\<close> of the blink branch.
\<close>

record inputs =
  switchFell :: bool
  clkFell :: bool
  dtState :: bool
  endSwitchPin :: bool
  homeSwitchPin :: bool
  millisAtCheck :: ulong
  millisAtStore :: ulong

definition issue :: "call \<Rightarrow> state \<Rightarrow> state" where
  "issue c s = s\<lparr>calls := calls s @ [c]\<rparr>"

section \<open>The functions of the sketch\<close>

definition updateMainScreen :: "state \<Rightarrow> state" where
  "updateMainScreen s = issue Display_update s"

text \<open>
  The condition \<^verbatim>\<open>stepperTrackingSpeed != initialStepperTrackingSpeed || homeSpeed != initialHomeSpeed\<close>,
  written out three times in the sketch (twice in \<^verbatim>\<open>updateMainScreen\<close> for the Save
  button, once in \<^verbatim>\<open>encoderRotated\<close> for \<^verbatim>\<open>maxPage\<close>).
\<close>

definition isDirty :: "state \<Rightarrow> bool" where
  "isDirty s \<longleftrightarrow>
     stepperTrackingSpeed s \<noteq> initialStepperTrackingSpeed s \<or> homeSpeed s \<noteq> initialHomeSpeed s"

text \<open>
  \<^verbatim>\<open>checkTimeoutExpired\<close> reads \<^verbatim>\<open>millis()\<close> itself; here the reading is its first
  argument. The subtraction is in \<^verbatim>\<open>unsigned long\<close> and wraps.
\<close>

definition checkTimeoutExpired :: "ulong \<Rightarrow> ulong \<Rightarrow> ulong \<Rightarrow> bool" where
  "checkTimeoutExpired currentMillis lastChange timeoutDuration \<longleftrightarrow>
     currentMillis - lastChange \<ge> timeoutDuration"

definition startStopButtonPressed :: "state \<Rightarrow> state" where
  "startStopButtonPressed s =
     (let s1 = issue (Stepper_setSpeed (sint (stepperTrackingSpeed s))) s;
          s2 = issue (Stepper_setAcceleration 20) s1
      in s2\<lparr>motorRunning := (if motorRunning s2 \<noteq> 0 then 0 else 1)\<rparr>)"

definition returnHomePressed :: "state \<Rightarrow> state" where
  "returnHomePressed s =
     (let s1 = issue (Stepper_setSpeed (sint (- homeSpeed s))) s;
          s2 = issue (Stepper_setAcceleration 20) s1
      in s2\<lparr>motorRunning := - 1\<rparr>)"

text \<open>
  \<^verbatim>\<open>byte1 = number >> 8\<close> shifts the signed \<^verbatim>\<open>int\<close> arithmetically and keeps the low
  byte; \<^verbatim>\<open>byte2 = number & 0xFF\<close>.
\<close>

definition writeIntIntoEEPROM :: "nat \<Rightarrow> int16 \<Rightarrow> state \<Rightarrow> state" where
  "writeIntIntoEEPROM address number s =
     (let byte1 = (ucast (signed_drop_bit 8 number) :: 8 word);
          byte2 = (ucast (number AND 0xFF) :: 8 word)
      in s\<lparr>eeprom := (eeprom s)(address := byte1, address + 1 := byte2)\<rparr>)"

definition saveSpeedConfiguration :: "state \<Rightarrow> state" where
  "saveSpeedConfiguration s =
     (let s1 = writeIntIntoEEPROM stepper_speed_address (stepperTrackingSpeed s) s;
          s2 = writeIntIntoEEPROM home_speed_address (homeSpeed s1) s1
      in s2\<lparr>initialStepperTrackingSpeed := stepperTrackingSpeed s2,
             initialHomeSpeed := homeSpeed s2\<rparr>)"

text \<open>
  The expression \<^verbatim>\<open>(EEPROM.read(a) << 8) | EEPROM.read(a + 1)\<close> of
  \<^verbatim>\<open>readSpeedConfigFromEeprom\<close>: both bytes are promoted to \<^verbatim>\<open>int\<close>.
\<close>

definition readIntFromEEPROM :: "state \<Rightarrow> nat \<Rightarrow> int16" where
  "readIntFromEEPROM s a =
     push_bit 8 (ucast (eeprom s a) :: int16) OR (ucast (eeprom s (a + 1)) :: int16)"

definition readSpeedConfigFromEeprom :: "state \<Rightarrow> state" where
  "readSpeedConfigFromEeprom s =
     (let trackingSpeedValue = readIntFromEEPROM s stepper_speed_address;
          homeSpeedValue = readIntFromEEPROM s home_speed_address;
          s1 = (if trackingSpeedValue \<noteq> 0xFFFF \<and> homeSpeedValue \<noteq> 0xFFFF
                then s\<lparr>stepperTrackingSpeed := trackingSpeedValue, homeSpeed := homeSpeedValue\<rparr>
                else s\<lparr>stepperTrackingSpeed := 1, homeSpeed := 100\<rparr>)
      in s1\<lparr>initialStepperTrackingSpeed := stepperTrackingSpeed s1,
             initialHomeSpeed := homeSpeed s1\<rparr>)"

definition encoderPressed :: "state \<Rightarrow> state" where
  "encoderPressed s =
     updateMainScreen
       (if editMode s then s\<lparr>editMode := False\<rparr>
        else if currentPageIndex s = 1 then s\<lparr>editMode := True, motorRunning := 0\<rparr>
        else if currentPageIndex s = 2 then s\<lparr>editMode := True, motorRunning := 0\<rparr>
        else if currentPageIndex s = 3 then startStopButtonPressed s
        else if currentPageIndex s = 4 then returnHomePressed s
        else if currentPageIndex s = 5 then (saveSpeedConfiguration s)\<lparr>currentPageIndex := 0\<rparr>
        else s)"

text \<open>
  The clamp of the two edit branches, on the sum already stored in the \<^verbatim>\<open>int\<close>
  variable.
\<close>

definition clampSpeed :: "int16 \<Rightarrow> int16" where
  "clampSpeed v = (if sint v < 1 then 1 else if sint v > 1000 then 1000 else v)"

text \<open>
  \<^verbatim>\<open>maxPage\<close> of \<^verbatim>\<open>encoderRotated\<close>, an \<^verbatim>\<open>int\<close> recomputed at each rotation outside
  edit mode.
\<close>

definition maxPage :: "state \<Rightarrow> int" where
  "maxPage s = (if isDirty s then 5 else 4)"

text \<open>
  The second argument is the level \<^verbatim>\<open>digitalRead(DT_PIN)\<close> returns (\<open>True\<close> is HIGH).
  \<^verbatim>\<open>change\<close> is an \<^verbatim>\<open>int8_t\<close>; the sums are computed in \<^verbatim>\<open>int\<close> and truncated by the
  assignment.
\<close>

definition encoderRotated :: "state \<Rightarrow> bool \<Rightarrow> state" where
  "encoderRotated s dt =
     (let change = (if dt then 1 else - 1 :: int8);
          s0 = issue (DigitalRead DT_PIN) s
      in updateMainScreen
        (if editMode s0 then
           (if currentPageIndex s0 = 1 then
              s0\<lparr>stepperTrackingSpeed :=
                    clampSpeed (word_of_int (sint (stepperTrackingSpeed s0) + sint change))\<rparr>
            else if currentPageIndex s0 = 2 then
              s0\<lparr>homeSpeed := clampSpeed (word_of_int (sint (homeSpeed s0) + sint change))\<rparr>
            else s0)
         else
           (let s1 = s0\<lparr>currentPageIndex := word_of_int (uint (currentPageIndex s0) + sint change)\<rparr>
            in if uint (currentPageIndex s1) < 1 then s1\<lparr>currentPageIndex := word_of_int (maxPage s1)\<rparr>
               else if uint (currentPageIndex s1) > maxPage s1 then s1\<lparr>currentPageIndex := 1\<rparr>
               else s1)))"

text \<open>
  The two pin arguments are the levels \<^verbatim>\<open>digitalRead\<close> returns for the end and the home
  switch; \<^verbatim>\<open>&&\<close> reads a pin only when the test on \<^verbatim>\<open>motorRunning\<close> before it holds.
\<close>

definition runTheStepper :: "state \<Rightarrow> bool \<Rightarrow> bool \<Rightarrow> state" where
  "runTheStepper s endPin homePin =
     (if motorRunning s \<noteq> 0 then
        (let s1 = (if sint (motorRunning s) > 0 then issue (DigitalRead END_SWITCH_PIN) s else s)
         in if sint (motorRunning s) > 0 \<and> \<not> endPin then updateMainScreen (s1\<lparr>motorRunning := 0\<rparr>)
            else
              (let s2 = (if sint (motorRunning s) < 0 then issue (DigitalRead HOME_SWITCH_PIN) s1 else s1)
               in if sint (motorRunning s) < 0 \<and> \<not> homePin then updateMainScreen (s2\<lparr>motorRunning := 0\<rparr>)
                  else issue Stepper_runSpeed s2))
      else s)"

text \<open>The first half of \<^verbatim>\<open>loop\<close>: the button event, then the rotation event.\<close>

definition loopEvents :: "state \<Rightarrow> inputs \<Rightarrow> state" where
  "loopEvents s i =
     (let s1 = (if switchFell i then encoderPressed s else s)
      in if clkFell i then encoderRotated s1 (dtState i) else s1)"

definition loop :: "state \<Rightarrow> inputs \<Rightarrow> state" where
  "loop s i =
     (let s2 = loopEvents s i
      in if editMode s2 then
           (if checkTimeoutExpired (millisAtCheck i) (lastUpdateEditModeScreen s2) 300 then
              updateMainScreen
                (s2\<lparr>editModeBlinkDark := \<not> editModeBlinkDark s2,
                    lastUpdateEditModeScreen := millisAtStore i\<rparr>)
            else s2)
         else runTheStepper s2 (endSwitchPin i) (homeSwitchPin i))"

text \<open>
  The variables as their initialisers leave them at power-on, over the EEPROM contents
  found there.
\<close>

definition powerOn :: "(nat \<Rightarrow> 8 word) \<Rightarrow> state" where
  "powerOn ee =
     \<lparr>editMode = False, lastUpdateEditModeScreen = 0, editModeBlinkDark = False,
      stepperTrackingSpeed = 1, homeSpeed = 100,
      initialStepperTrackingSpeed = 1, initialHomeSpeed = 100,
      motorRunning = 0, currentPageIndex = 3, eeprom = ee, calls = []\<rparr>"

text \<open>
  \<^verbatim>\<open>setup\<close>: when \<^verbatim>\<open>display.begin\<close> fails, the sketch spins in \<^verbatim>\<open>while (1)\<close> and
  never reaches \<^verbatim>\<open>loop\<close>, which is the value \<open>None\<close>.
\<close>

definition setupSketch :: "bool \<Rightarrow> state \<Rightarrow> state option" where
  "setupSketch displayBegins s =
     (if \<not> displayBegins then None
      else Some (updateMainScreen
             (issue (Stepper_setSpeed 100)
               (issue (Stepper_setAcceleration 20)
                 (issue (Stepper_setMaxSpeed 1000) (readSpeedConfigFromEeprom s))))))"

text \<open>The states the controller can be in: after \<^verbatim>\<open>setup\<close>, and after each pass of \<^verbatim>\<open>loop\<close>.\<close>

inductive reachable :: "state \<Rightarrow> bool" where
  booted: "setupSketch True (powerOn ee) = Some s \<Longrightarrow> reachable s"
| looped: "reachable s \<Longrightarrow> reachable (loop s i)"

text \<open>A run of \<^verbatim>\<open>loop\<close> over the inputs of successive passes.\<close>

fun runLoop :: "state \<Rightarrow> inputs list \<Rightarrow> state" where
  "runLoop s [] = s"
| "runLoop s (i # is) = runLoop (loop s i) is"

text \<open>
  The run mode \<^verbatim>\<open>motorRunning\<close> encodes, as \<^verbatim>\<open>runTheStepper\<close> tests it: 0 not running,
  positive running forward, negative running backward.
\<close>

datatype MotorState = Idle | Tracking | Homing

definition motorState :: "state \<Rightarrow> MotorState" where
  "motorState s =
     (if motorRunning s = 0 then Idle
      else if sint (motorRunning s) > 0 then Tracking
      else Homing)"

section \<open>Derived notions\<close>

text \<open>Both working speeds lie in \<open>[1, 1000]\<close>, read as signed \<^verbatim>\<open>int\<close>.\<close>

definition speedsInRange :: "state \<Rightarrow> bool" where
  "speedsInRange s \<longleftrightarrow>
     1 \<le> sint (stepperTrackingSpeed s) \<and> sint (stepperTrackingSpeed s) \<le> 1000 \<and>
     1 \<le> sint (homeSpeed s) \<and> sint (homeSpeed s) \<le> 1000"

text \<open>A sequence of rotation events, each with the level of the data pin at that event.\<close>

fun rotations :: "state \<Rightarrow> bool list \<Rightarrow> state" where
  "rotations s [] = s"
| "rotations s (dt # dts) = rotations (encoderRotated s dt) dts"

text \<open>The motor does not run while a value is edited.\<close>

definition editIdle :: "state \<Rightarrow> bool" where
  "editIdle s \<longleftrightarrow> (editMode s \<longrightarrow> motorRunning s = 0)"

text \<open>Concrete EEPROM contents, states and inputs, used to evaluate the functions.\<close>

definition erasedEeprom :: "nat \<Rightarrow> 8 word" where
  "erasedEeprom = (\<lambda>_. 0xFF)"

definition zeroEeprom :: "nat \<Rightarrow> 8 word" where
  "zeroEeprom = (\<lambda>_. 0)"

definition booted0 :: state where
  "booted0 = the (setupSketch True (powerOn erasedEeprom))"

definition noEvent :: inputs where
  "noEvent = \<lparr>switchFell = False, clkFell = False, dtState = True,
              endSwitchPin = True, homeSwitchPin = True,
              millisAtCheck = 0, millisAtStore = 0\<rparr>"

definition press :: inputs where
  "press = noEvent\<lparr>switchFell := True\<rparr>"

definition rotateCW :: inputs where
  "rotateCW = noEvent\<lparr>clkFell := True, dtState := True\<rparr>"

definition rotateCCW :: inputs where
  "rotateCCW = noEvent\<lparr>clkFell := True, dtState := False\<rparr>"

definition atTime :: "ulong \<Rightarrow> inputs \<Rightarrow> inputs" where
  "atTime t i = i\<lparr>millisAtCheck := t, millisAtStore := t\<rparr>"

text \<open>
  The pass in which the end switch is found active, and the runs that lead to the states
  the examples start from: tracking on page 3, tracking on page 4, tracking on page 1,
  homing on page 4, editing on page 1, unsaved change on page 5, and back on page 1 after one blink.
\<close>

definition endReached :: inputs where
  "endReached = noEvent\<lparr>endSwitchPin := False\<rparr>"

definition trackingOnStart :: state where
  "trackingOnStart = runLoop booted0 [press]"

definition trackingOnHome :: state where
  "trackingOnHome = runLoop booted0 [press, rotateCW]"

definition trackingOnSpeed :: state where
  "trackingOnSpeed = runLoop booted0 [press, rotateCCW, rotateCCW]"

definition homingOnHome :: state where
  "homingOnHome = runLoop booted0 [rotateCW, press]"

definition editingSpeed :: state where
  "editingSpeed = runLoop booted0 [rotateCCW, rotateCCW, press]"

definition unsavedOnSave :: state where
  "unsavedOnSave = runLoop booted0 [rotateCCW, rotateCCW, press, rotateCW, press, rotateCCW]"

definition afterBlink :: state where
  "afterBlink = runLoop booted0
     [rotateCCW, rotateCCW, press, atTime 300 noEvent, atTime 400 press]"

section \<open>Auxiliary facts\<close>

lemmas handler_defs =
  encoderPressed_def encoderRotated_def runTheStepper_def startStopButtonPressed_def
  returnHomePressed_def saveSpeedConfiguration_def writeIntIntoEEPROM_def
  updateMainScreen_def issue_def Let_def

lemmas run_defs =
  loop_def loopEvents_def handler_defs booted0_def setupSketch_def powerOn_def
  readSpeedConfigFromEeprom_def readIntFromEEPROM_def erasedEeprom_def
  noEvent_def press_def rotateCW_def rotateCCW_def
  stepper_speed_address_def home_speed_address_def motorState_def isDirty_def maxPage_def
  clampSpeed_def checkTimeoutExpired_def

lemma reachable_booted0: "reachable booted0"
  by (rule reachable.booted [of erasedEeprom]) (simp add: booted0_def setupSketch_def)

lemma reachable_runLoop: "reachable s \<Longrightarrow> reachable (runLoop s is)"
  by (induction "is" arbitrary: s) (simp_all add: reachable.looped)

subsection \<open>Evaluation of the example runs\<close>

lemma trackingOnStart_eval:
  "\<not> editMode trackingOnStart \<and> motorRunning trackingOnStart = 1 \<and>
   currentPageIndex trackingOnStart = 3"
  by (simp add: trackingOnStart_def run_defs)

lemma trackingOnHome_eval:
  "\<not> editMode trackingOnHome \<and> motorRunning trackingOnHome = 1 \<and>
   currentPageIndex trackingOnHome = 4"
  by (simp add: trackingOnHome_def run_defs)

lemma trackingOnSpeed_eval:
  "\<not> editMode trackingOnSpeed \<and> motorRunning trackingOnSpeed = 1 \<and>
   currentPageIndex trackingOnSpeed = 1"
  by (simp add: trackingOnSpeed_def run_defs)

lemma homingOnHome_eval:
  "\<not> editMode homingOnHome \<and> motorRunning homingOnHome = - 1 \<and>
   currentPageIndex homingOnHome = 4"
  by (simp add: homingOnHome_def run_defs)

lemma editingSpeed_eval:
  "editMode editingSpeed \<and> motorRunning editingSpeed = 0 \<and> currentPageIndex editingSpeed = 1 \<and>
   stepperTrackingSpeed editingSpeed = 1 \<and> homeSpeed editingSpeed = 100 \<and>
   initialStepperTrackingSpeed editingSpeed = 1 \<and> initialHomeSpeed editingSpeed = 100"
  by (simp add: editingSpeed_def run_defs)

lemma unsavedOnSave_eval:
  "\<not> editMode unsavedOnSave \<and> currentPageIndex unsavedOnSave = 5 \<and>
   stepperTrackingSpeed unsavedOnSave = 2 \<and> homeSpeed unsavedOnSave = 100 \<and>
   initialStepperTrackingSpeed unsavedOnSave = 1 \<and> initialHomeSpeed unsavedOnSave = 100"
  by (simp add: unsavedOnSave_def run_defs)

lemma afterBlink_eval:
  "\<not> editMode afterBlink \<and> currentPageIndex afterBlink = 1 \<and>
   editModeBlinkDark afterBlink \<and> lastUpdateEditModeScreen afterBlink = 300"
  by (simp add: afterBlink_def atTime_def run_defs)

section \<open>The EEPROM encoding\<close>

lemma ff_mask: "(0xFF :: 16 word) = mask 8"
  by (simp add: mask_eq_exp_minus_1)

lemma readInt_writeInt_same: "readIntFromEEPROM (writeIntIntoEEPROM a v s) a = v"
proof -
  have "push_bit 8 (ucast (ucast (signed_drop_bit 8 v) :: 8 word) :: 16 word)
          OR ucast (ucast (v AND mask 8) :: 8 word) = v"
  proof (rule bit_word_eqI)
    fix n assume "n < LENGTH(16)"
    then show "bit (push_bit 8 (ucast (ucast (signed_drop_bit 8 v) :: 8 word) :: 16 word)
          OR ucast (ucast (v AND mask 8) :: 8 word)) n = bit v n"
      by (cases "8 \<le> n") (auto simp add: bit_simps)
  qed
  then show ?thesis
    by (simp add: readIntFromEEPROM_def writeIntIntoEEPROM_def Let_def ff_mask)
qed

lemma readInt_writeInt_other:
  "a' \<noteq> a \<Longrightarrow> a' \<noteq> a + 1 \<Longrightarrow> a' + 1 \<noteq> a \<Longrightarrow> a' + 1 \<noteq> a + 1 \<Longrightarrow>
   readIntFromEEPROM (writeIntIntoEEPROM a v s) a' = readIntFromEEPROM s a'"
  by (simp add: readIntFromEEPROM_def writeIntIntoEEPROM_def Let_def)

lemma readSpeedConfig_valid:
  "readIntFromEEPROM s stepper_speed_address \<noteq> 0xFFFF \<Longrightarrow>
   readIntFromEEPROM s home_speed_address \<noteq> 0xFFFF \<Longrightarrow>
   stepperTrackingSpeed (readSpeedConfigFromEeprom s) = readIntFromEEPROM s stepper_speed_address \<and>
   homeSpeed (readSpeedConfigFromEeprom s) = readIntFromEEPROM s home_speed_address"
  by (simp add: readSpeedConfigFromEeprom_def Let_def)

text \<open>
  C9. Every integer \<open>k\<close> in \<open>[0, 65535]\<close> other than \<open>0xFFFF\<close>, written by
  \<^verbatim>\<open>writeIntIntoEEPROM\<close> at a word address, is read back unchanged by the expression of
  \<^verbatim>\<open>readSpeedConfigFromEeprom\<close>; and \<^verbatim>\<open>readSpeedConfigFromEeprom\<close> itself returns it
  as the tracking speed (written at address 0) or as the home speed (written at address 2)
  provided the other stored word is not \<open>0xFFFF\<close> either.
\<close>

theorem eeprom_word_roundtrip:
  assumes "0 \<le> k" and "k < 65535"
  shows "uint (readIntFromEEPROM (writeIntIntoEEPROM a (word_of_int k) s) a) = k \<and>
    (readIntFromEEPROM s home_speed_address \<noteq> 0xFFFF \<longrightarrow>
       uint (stepperTrackingSpeed (readSpeedConfigFromEeprom
               (writeIntIntoEEPROM stepper_speed_address (word_of_int k) s))) = k) \<and>
    (readIntFromEEPROM s stepper_speed_address \<noteq> 0xFFFF \<longrightarrow>
       uint (homeSpeed (readSpeedConfigFromEeprom
               (writeIntIntoEEPROM home_speed_address (word_of_int k) s))) = k)"
proof -
  let ?v = "word_of_int k :: int16"
  have u: "uint ?v = k"
    using assms by (simp add: uint_word_of_int_eq take_bit_int_eq_self)
  have ne: "?v \<noteq> 0xFFFF"
  proof
    assume "?v = 0xFFFF"
    then have "uint ?v = uint (0xFFFF :: int16)" by (rule arg_cong)
    with u assms show False by simp
  qed
  have same: "uint (readIntFromEEPROM (writeIntIntoEEPROM a ?v s) a) = k"
    by (simp only: readInt_writeInt_same u)
  have tracking: "uint (stepperTrackingSpeed (readSpeedConfigFromEeprom
               (writeIntIntoEEPROM stepper_speed_address ?v s))) = k"
    if h: "readIntFromEEPROM s home_speed_address \<noteq> 0xFFFF"
  proof -
    let ?s = "writeIntIntoEEPROM stepper_speed_address ?v s"
    have "readIntFromEEPROM ?s home_speed_address = readIntFromEEPROM s home_speed_address"
      by (rule readInt_writeInt_other) (simp_all add: stepper_speed_address_def home_speed_address_def)
    with h ne show ?thesis
      using readSpeedConfig_valid [of ?s] by (simp add: readInt_writeInt_same u)
  qed
  have home: "uint (homeSpeed (readSpeedConfigFromEeprom
               (writeIntIntoEEPROM home_speed_address ?v s))) = k"
    if h: "readIntFromEEPROM s stepper_speed_address \<noteq> 0xFFFF"
  proof -
    let ?s = "writeIntIntoEEPROM home_speed_address ?v s"
    have "readIntFromEEPROM ?s stepper_speed_address = readIntFromEEPROM s stepper_speed_address"
      by (rule readInt_writeInt_other) (simp_all add: stepper_speed_address_def home_speed_address_def)
    with h ne show ?thesis
      using readSpeedConfig_valid [of ?s] by (simp add: readInt_writeInt_same u)
  qed
  from same tracking home show ?thesis by blast
qed

theorem eeprom_word_roundtrip_witness:
  "(0::int) \<le> 1000 \<and> (1000::int) < 65535 \<and>
   readIntFromEEPROM (powerOn zeroEeprom) home_speed_address \<noteq> 0xFFFF \<and>
   readIntFromEEPROM (powerOn zeroEeprom) stepper_speed_address \<noteq> 0xFFFF \<and>
   uint (stepperTrackingSpeed (readSpeedConfigFromEeprom
          (writeIntIntoEEPROM stepper_speed_address (word_of_int 1000) (powerOn zeroEeprom)))) = 1000 \<and>
   uint (homeSpeed (readSpeedConfigFromEeprom
          (writeIntIntoEEPROM home_speed_address (word_of_int 1000) (powerOn zeroEeprom)))) = 1000"
proof -
  have h: "readIntFromEEPROM (powerOn zeroEeprom) home_speed_address \<noteq> 0xFFFF"
    "readIntFromEEPROM (powerOn zeroEeprom) stepper_speed_address \<noteq> 0xFFFF"
    by (simp_all add: readIntFromEEPROM_def powerOn_def zeroEeprom_def)
  show ?thesis
    using h eeprom_word_roundtrip [of 1000 _ "powerOn zeroEeprom"] by simp
qed

text \<open>
  C2, as the sketch has it. \<^verbatim>\<open>readSpeedConfigFromEeprom\<close> replaces both speeds by the
  defaults 1 and 100 when either stored word is \<open>0xFFFF\<close>; otherwise it takes the two
  stored words as they are, without clamping; in both cases the saved snapshot equals
  the working values afterwards.
\<close>

theorem load_defaults_or_stored:
  "(readIntFromEEPROM s stepper_speed_address = 0xFFFF \<or>
    readIntFromEEPROM s home_speed_address = 0xFFFF \<longrightarrow>
      stepperTrackingSpeed (readSpeedConfigFromEeprom s) = 1 \<and>
      homeSpeed (readSpeedConfigFromEeprom s) = 100) \<and>
   (readIntFromEEPROM s stepper_speed_address \<noteq> 0xFFFF \<and>
    readIntFromEEPROM s home_speed_address \<noteq> 0xFFFF \<longrightarrow>
      stepperTrackingSpeed (readSpeedConfigFromEeprom s) =
        readIntFromEEPROM s stepper_speed_address \<and>
      homeSpeed (readSpeedConfigFromEeprom s) = readIntFromEEPROM s home_speed_address) \<and>
   initialStepperTrackingSpeed (readSpeedConfigFromEeprom s) =
     stepperTrackingSpeed (readSpeedConfigFromEeprom s) \<and>
   initialHomeSpeed (readSpeedConfigFromEeprom s) = homeSpeed (readSpeedConfigFromEeprom s)"
  by (simp add: readSpeedConfigFromEeprom_def Let_def)

theorem load_defaults_or_stored_witness:
  "readIntFromEEPROM (powerOn erasedEeprom) stepper_speed_address = 0xFFFF \<and>
   stepperTrackingSpeed (readSpeedConfigFromEeprom (powerOn erasedEeprom)) = 1 \<and>
   homeSpeed (readSpeedConfigFromEeprom (powerOn erasedEeprom)) = 100 \<and>
   readIntFromEEPROM (powerOn zeroEeprom) stepper_speed_address \<noteq> 0xFFFF \<and>
   readIntFromEEPROM (powerOn zeroEeprom) home_speed_address \<noteq> 0xFFFF \<and>
   stepperTrackingSpeed (readSpeedConfigFromEeprom (powerOn zeroEeprom)) = 0 \<and>
   initialStepperTrackingSpeed (readSpeedConfigFromEeprom (powerOn zeroEeprom)) = 0"
proof -
  have e: "readIntFromEEPROM (powerOn erasedEeprom) stepper_speed_address = 0xFFFF"
    by (simp add: readIntFromEEPROM_def powerOn_def erasedEeprom_def stepper_speed_address_def)
  have z: "readIntFromEEPROM (powerOn zeroEeprom) stepper_speed_address = 0"
    "readIntFromEEPROM (powerOn zeroEeprom) home_speed_address = 0"
    by (simp_all add: readIntFromEEPROM_def powerOn_def zeroEeprom_def)
  show ?thesis
    using load_defaults_or_stored [of "powerOn erasedEeprom"]
      load_defaults_or_stored [of "powerOn zeroEeprom"] e z
    by simp
qed

text \<open>
  C2 as the claim states it fails: with both stored words 0 (neither is the sentinel)
  the tracking speed after loading is 0, outside \<open>[1, 1000]\<close>.
\<close>

theorem load_unclamped_counterexample:
  "readIntFromEEPROM (powerOn zeroEeprom) stepper_speed_address \<noteq> 0xFFFF \<and>
   readIntFromEEPROM (powerOn zeroEeprom) home_speed_address \<noteq> 0xFFFF \<and>
   sint (stepperTrackingSpeed (readSpeedConfigFromEeprom (powerOn zeroEeprom))) = 0 \<and>
   \<not> speedsInRange (readSpeedConfigFromEeprom (powerOn zeroEeprom))"
  by (simp add: readSpeedConfigFromEeprom_def readIntFromEEPROM_def powerOn_def zeroEeprom_def
      speedsInRange_def Let_def)

section \<open>The configuration: dirtiness and adjustment\<close>

text \<open>
  C4. The dirtiness condition of the sketch holds exactly when a working speed differs
  from its saved snapshot, and it is what makes \<^verbatim>\<open>maxPage\<close> 5; after
  \<^verbatim>\<open>saveSpeedConfiguration\<close> it is false, both snapshot fields equal the working
  values, which are unchanged; so it is after the button press that saves from page 5.
\<close>

theorem dirty_iff_differs:
  "(isDirty s \<longleftrightarrow>
      stepperTrackingSpeed s \<noteq> initialStepperTrackingSpeed s \<or> homeSpeed s \<noteq> initialHomeSpeed s) \<and>
   (maxPage s = 5 \<longleftrightarrow>
      stepperTrackingSpeed s \<noteq> initialStepperTrackingSpeed s \<or> homeSpeed s \<noteq> initialHomeSpeed s) \<and>
   \<not> isDirty (saveSpeedConfiguration s) \<and>
   initialStepperTrackingSpeed (saveSpeedConfiguration s) = stepperTrackingSpeed s \<and>
   initialHomeSpeed (saveSpeedConfiguration s) = homeSpeed s \<and>
   stepperTrackingSpeed (saveSpeedConfiguration s) = stepperTrackingSpeed s \<and>
   homeSpeed (saveSpeedConfiguration s) = homeSpeed s \<and>
   (\<not> editMode s \<and> currentPageIndex s = 5 \<longrightarrow> \<not> isDirty (encoderPressed s))"
  by (simp add: isDirty_def maxPage_def handler_defs)

theorem dirty_iff_differs_witness:
  "isDirty unsavedOnSave \<and> maxPage unsavedOnSave = 5 \<and>
   \<not> isDirty (saveSpeedConfiguration unsavedOnSave) \<and>
   initialStepperTrackingSpeed (saveSpeedConfiguration unsavedOnSave) = 2 \<and>
   initialHomeSpeed (saveSpeedConfiguration unsavedOnSave) = 100 \<and>
   \<not> editMode unsavedOnSave \<and> currentPageIndex unsavedOnSave = 5 \<and>
   \<not> isDirty (encoderPressed unsavedOnSave)"
  using dirty_iff_differs [of unsavedOnSave] unsavedOnSave_eval by simp

lemma clampSpeed_range: "1 \<le> sint (clampSpeed v) \<and> sint (clampSpeed v) \<le> 1000"
  by (simp add: clampSpeed_def)

lemma encoderRotated_edit:
  "editMode s \<Longrightarrow> editMode (encoderRotated s dt) \<and>
     initialStepperTrackingSpeed (encoderRotated s dt) = initialStepperTrackingSpeed s \<and>
     initialHomeSpeed (encoderRotated s dt) = initialHomeSpeed s"
  by (simp add: handler_defs)

lemma encoderRotated_range:
  "editMode s \<Longrightarrow> speedsInRange s \<Longrightarrow> speedsInRange (encoderRotated s dt)"
  using clampSpeed_range by (simp add: handler_defs speedsInRange_def)

lemma rotations_edit:
  "editMode s \<Longrightarrow> speedsInRange s \<Longrightarrow>
   editMode (rotations s dts) \<and> speedsInRange (rotations s dts) \<and>
   initialStepperTrackingSpeed (rotations s dts) = initialStepperTrackingSpeed s \<and>
   initialHomeSpeed (rotations s dts) = initialHomeSpeed s"
proof (induction dts arbitrary: s)
  case Nil
  then show ?case by simp
next
  case (Cons dt dts)
  from Cons.prems have "editMode (encoderRotated s dt)" "speedsInRange (encoderRotated s dt)"
    by (simp_all add: encoderRotated_edit encoderRotated_range)
  from Cons.IH [OF this] show ?case
    using Cons.prems by (simp add: encoderRotated_edit)
qed

lemma sint_succ:
  "sint (x :: 16 word) \<le> 1000 \<Longrightarrow> - 1 \<le> sint x \<Longrightarrow> sint (x + 1) = sint x + 1"
  by (simp add: sint_word_ariths signed_take_bit_int_eq_self)

lemma sint_pred:
  "sint (x :: 16 word) \<le> 1000 \<Longrightarrow> - 1 \<le> sint x \<Longrightarrow> sint (x - 1) = sint x - 1"
  by (simp add: sint_word_ariths signed_take_bit_int_eq_self)

text \<open>One adjustment on the tracking speed page adds the step and clamps.\<close>

lemma adjust_tracking_step:
  assumes "editMode s" and "currentPageIndex s = 1"
    and "1 \<le> sint (stepperTrackingSpeed s)" and "sint (stepperTrackingSpeed s) \<le> 1000"
  shows "sint (stepperTrackingSpeed (encoderRotated s dt)) =
    max 1 (min 1000 (sint (stepperTrackingSpeed s) + (if dt then 1 else - 1)))"
  using assms by (simp add: handler_defs clampSpeed_def sint_succ sint_pred)

lemma adjust_home_step:
  assumes "editMode s" and "currentPageIndex s = 2"
    and "1 \<le> sint (homeSpeed s)" and "sint (homeSpeed s) \<le> 1000"
  shows "sint (homeSpeed (encoderRotated s dt)) =
    max 1 (min 1000 (sint (homeSpeed s) + (if dt then 1 else - 1)))"
  using assms by (simp add: handler_defs clampSpeed_def sint_succ sint_pred)

text \<open>
  C8. From a state in edit mode whose working speeds lie in \<open>[1, 1000]\<close>, after every
  prefix of every sequence of rotations both working speeds still lie in \<open>[1, 1000]\<close>
  and the saved snapshot is the one the sequence started with.
\<close>

theorem adjust_keeps_range:
  assumes "editMode s" and "speedsInRange s"
  shows "speedsInRange (rotations s (take n dts)) \<and>
         initialStepperTrackingSpeed (rotations s (take n dts)) = initialStepperTrackingSpeed s \<and>
         initialHomeSpeed (rotations s (take n dts)) = initialHomeSpeed s"
  using rotations_edit [OF assms, of "take n dts"] by simp

theorem adjust_keeps_range_witness:
  "editMode editingSpeed \<and> speedsInRange editingSpeed \<and>
   speedsInRange (rotations editingSpeed (take 2 [False, True, True])) \<and>
   stepperTrackingSpeed (rotations editingSpeed (take 2 [False, True, True])) = 2 \<and>
   initialStepperTrackingSpeed (rotations editingSpeed (take 2 [False, True, True])) = 1 \<and>
   initialHomeSpeed (rotations editingSpeed (take 2 [False, True, True])) = 100"
proof -
  have e: "editMode editingSpeed" and r: "speedsInRange editingSpeed"
    using editingSpeed_eval by (simp_all add: speedsInRange_def)
  have t: "stepperTrackingSpeed (rotations editingSpeed (take 2 [False, True, True])) = 2"
    using editingSpeed_eval by (simp add: handler_defs clampSpeed_def)
  show ?thesis
    using adjust_keeps_range [OF e r, of 2 "[False, True, True]"] e r t editingSpeed_eval
    by simp
qed

section \<open>The pages\<close>

lemma page_plus: "uint (p :: 8 word) \<le> 5 \<Longrightarrow> uint (p + 1) = uint p + 1"
  by (simp add: uint_word_ariths take_bit_int_eq_self)

lemma page_minus: "1 \<le> uint (p :: 8 word) \<Longrightarrow> uint (p - 1) = uint p - 1"
  using uint_lt2p [of p] by (simp add: uint_word_ariths take_bit_int_eq_self)

lemma maxPage_cases: "maxPage s = 4 \<or> maxPage s = 5"
  by (simp add: maxPage_def)

text \<open>
  C5. Outside edit mode, from a page between 1 and the last valid page, a clockwise
  rotation goes to the next page and from the last valid page to page 1; an
  anticlockwise rotation goes to the page before and from page 1 to the last valid page.
  The last valid page is 5 when the configuration is dirty and 4 when it is clean, and a
  rotation does not change dirtiness.
\<close>

theorem page_cycle:
  assumes "\<not> editMode s" and "1 \<le> uint (currentPageIndex s)"
    and "uint (currentPageIndex s) \<le> maxPage s"
  shows "uint (currentPageIndex (encoderRotated s True)) =
           (if uint (currentPageIndex s) = maxPage s then 1 else uint (currentPageIndex s) + 1) \<and>
         uint (currentPageIndex (encoderRotated s False)) =
           (if uint (currentPageIndex s) = 1 then maxPage s else uint (currentPageIndex s) - 1) \<and>
         maxPage s = (if isDirty s then 5 else 4) \<and>
         isDirty (encoderRotated s dt) = isDirty s"
proof -
  let ?p = "currentPageIndex s"
  have le5: "uint ?p \<le> 5"
    using assms(3) maxPage_cases [of s] by auto
  have m: "maxPage (s\<lparr>calls := c, currentPageIndex := q\<rparr>) = maxPage s" for c q
    by (simp add: maxPage_def isDirty_def)
  have up: "uint (currentPageIndex (encoderRotated s True)) =
           (if uint ?p = maxPage s then 1 else uint ?p + 1)"
    using assms le5 maxPage_cases [of s] by (auto simp add: handler_defs page_plus m)
  have down: "uint (currentPageIndex (encoderRotated s False)) =
           (if uint ?p = 1 then maxPage s else uint ?p - 1)"
    using assms le5 maxPage_cases [of s] by (auto simp add: handler_defs page_minus m)
  have d: "isDirty (encoderRotated s dt) = isDirty s"
    using assms(1) by (simp add: handler_defs isDirty_def)
  from up down d show ?thesis by (simp add: maxPage_def)
qed

theorem page_cycle_witness:
  "\<not> editMode trackingOnHome \<and> 1 \<le> uint (currentPageIndex trackingOnHome) \<and>
   uint (currentPageIndex trackingOnHome) \<le> maxPage trackingOnHome \<and>
   maxPage trackingOnHome = 4 \<and>
   uint (currentPageIndex (encoderRotated trackingOnHome True)) = 1 \<and>
   uint (currentPageIndex (encoderRotated trackingOnHome False)) = 3 \<and>
   \<not> editMode unsavedOnSave \<and> 1 \<le> uint (currentPageIndex unsavedOnSave) \<and>
   uint (currentPageIndex unsavedOnSave) \<le> maxPage unsavedOnSave \<and>
   maxPage unsavedOnSave = 5 \<and>
   uint (currentPageIndex (encoderRotated unsavedOnSave True)) = 1 \<and>
   uint (currentPageIndex (encoderRotated unsavedOnSave False)) = 4"
proof -
  have h: "maxPage trackingOnHome = 4"
    by (simp add: trackingOnHome_def run_defs)
  have u: "maxPage unsavedOnSave = 5"
    using unsavedOnSave_eval by (simp add: maxPage_def isDirty_def)
  show ?thesis
    using page_cycle [of trackingOnHome] page_cycle [of unsavedOnSave]
      trackingOnHome_eval unsavedOnSave_eval h u
    by simp
qed

text \<open>
  C1. The press that saves from page 5: after a run from power-on that changes the
  tracking speed and turns to page 5, \<^verbatim>\<open>encoderPressed\<close> leaves the page index at 0,
  which is below page 1, while the configuration is clean again and the last page is 4.
  The same holds after the whole pass of \<^verbatim>\<open>loop\<close> that handles the press.
\<close>

theorem save_press_leaves_page_zero:
  "reachable unsavedOnSave \<and> \<not> editMode unsavedOnSave \<and> currentPageIndex unsavedOnSave = 5 \<and>
   currentPageIndex (encoderPressed unsavedOnSave) = 0 \<and>
   maxPage (encoderPressed unsavedOnSave) = 4 \<and>
   uint (currentPageIndex (encoderPressed unsavedOnSave)) < 1 \<and>
   currentPageIndex (loop unsavedOnSave press) = 0"
proof -
  have r: "reachable unsavedOnSave"
    unfolding unsavedOnSave_def by (rule reachable_runLoop [OF reachable_booted0])
  have p: "currentPageIndex (encoderPressed unsavedOnSave) = 0"
    using unsavedOnSave_eval by (simp add: handler_defs)
  have m: "maxPage (encoderPressed unsavedOnSave) = 4"
    using unsavedOnSave_eval by (simp add: handler_defs maxPage_def isDirty_def)
  have l: "currentPageIndex (loop unsavedOnSave press) = 0"
    using unsavedOnSave_eval
    by (simp add: loop_def loopEvents_def press_def noEvent_def handler_defs)
  from r p m l unsavedOnSave_eval show ?thesis by simp
qed

section \<open>Entering edit mode\<close>

text \<open>
  C6, as the sketch has it. A press outside edit mode on page 1 or page 2 sets
  \<^verbatim>\<open>editMode\<close> and stops the motor whatever it was doing; the blink phase and the time
  of its last toggle stay as they were.
\<close>

theorem enter_edit_stops_motor:
  assumes "\<not> editMode s" and "currentPageIndex s = 1 \<or> currentPageIndex s = 2"
  shows "editMode (encoderPressed s) \<and> motorRunning (encoderPressed s) = 0 \<and>
         motorState (encoderPressed s) = Idle \<and>
         editModeBlinkDark (encoderPressed s) = editModeBlinkDark s \<and>
         lastUpdateEditModeScreen (encoderPressed s) = lastUpdateEditModeScreen s"
  using assms by (auto simp add: handler_defs motorState_def)

theorem enter_edit_stops_motor_witness:
  "\<not> editMode trackingOnSpeed \<and> currentPageIndex trackingOnSpeed = 1 \<and>
   motorState trackingOnSpeed = Tracking \<and>
   editMode (encoderPressed trackingOnSpeed) \<and>
   motorState (encoderPressed trackingOnSpeed) = Idle"
proof -
  have t: "motorState trackingOnSpeed = Tracking"
    using trackingOnSpeed_eval by (simp add: motorState_def)
  show ?thesis
    using enter_edit_stops_motor [of trackingOnSpeed] trackingOnSpeed_eval t by simp
qed

text \<open>
  C6 as the claim states it fails: after one blink, leaving edit mode and pressing again
  on page 1, the blink phase is still dark and the time of the last toggle is still 300,
  after \<^verbatim>\<open>encoderPressed\<close> and after the whole pass of \<^verbatim>\<open>loop\<close> at time 500.
\<close>

theorem enter_edit_keeps_blink_counterexample:
  "reachable afterBlink \<and> \<not> editMode afterBlink \<and> currentPageIndex afterBlink = 1 \<and>
   editMode (encoderPressed afterBlink) \<and>
   editModeBlinkDark (encoderPressed afterBlink) \<and>
   lastUpdateEditModeScreen (encoderPressed afterBlink) = 300 \<and>
   editMode (loop afterBlink (atTime 500 press)) \<and>
   editModeBlinkDark (loop afterBlink (atTime 500 press)) \<and>
   lastUpdateEditModeScreen (loop afterBlink (atTime 500 press)) = 300"
proof -
  have r: "reachable afterBlink"
    unfolding afterBlink_def by (rule reachable_runLoop [OF reachable_booted0])
  have p: "editMode (encoderPressed afterBlink) \<and>
    editModeBlinkDark (encoderPressed afterBlink) \<and>
    lastUpdateEditModeScreen (encoderPressed afterBlink) = 300"
    using afterBlink_eval by (simp add: handler_defs)
  have l: "editMode (loop afterBlink (atTime 500 press)) \<and>
    editModeBlinkDark (loop afterBlink (atTime 500 press)) \<and>
    lastUpdateEditModeScreen (loop afterBlink (atTime 500 press)) = 300"
    using afterBlink_eval
    by (simp add: loop_def loopEvents_def press_def noEvent_def atTime_def handler_defs
        checkTimeoutExpired_def)
  from r p l afterBlink_eval show ?thesis by simp
qed

section \<open>The motor\<close>

lemma encoderPressed_from_homing:
  "motorState s = Homing \<Longrightarrow> motorState (encoderPressed s) \<noteq> Tracking"
  by (auto simp add: handler_defs motorState_def split: if_splits)

lemma encoderPressed_to_homing:
  "motorState s = Tracking \<Longrightarrow> motorState (encoderPressed s) = Homing \<Longrightarrow>
   \<not> editMode s \<and> currentPageIndex s = 4"
  by (auto simp add: handler_defs motorState_def split: if_splits)

lemma encoderRotated_motor: "motorRunning (encoderRotated s dt) = motorRunning s"
  by (simp add: handler_defs)

lemma encoderRotated_motorState: "motorState (encoderRotated s dt) = motorState s"
  by (simp add: motorState_def encoderRotated_motor)

lemma runTheStepper_motor:
  "motorRunning (runTheStepper s e h) = motorRunning s \<or> motorRunning (runTheStepper s e h) = 0"
  by (simp add: handler_defs)

lemma runTheStepper_motorState:
  "motorState (runTheStepper s e h) = motorState s \<or> motorState (runTheStepper s e h) = Idle"
  using runTheStepper_motor [of s e h] by (auto simp add: motorState_def)

lemma loop_not_edit:
  "\<not> editMode (loopEvents s i) \<Longrightarrow>
   loop s i = runTheStepper (loopEvents s i) (endSwitchPin i) (homeSwitchPin i)"
  by (simp add: loop_def Let_def)

lemma loop_edit_motor:
  "editMode (loopEvents s i) \<Longrightarrow> motorRunning (loop s i) = motorRunning (loopEvents s i)"
  by (simp add: loop_def Let_def updateMainScreen_def issue_def)

lemma loop_motorState:
  "motorState (loop s i) = motorState (loopEvents s i) \<or> motorState (loop s i) = Idle"
proof (cases "editMode (loopEvents s i)")
  case True
  then show ?thesis by (simp add: motorState_def loop_edit_motor)
next
  case False
  then show ?thesis
    using runTheStepper_motorState [of "loopEvents s i" "endSwitchPin i" "homeSwitchPin i"]
    by (simp add: loop_not_edit)
qed

lemma loopEvents_motorState:
  "motorState (loopEvents s i) = (if switchFell i then motorState (encoderPressed s) else motorState s)"
  by (simp add: loopEvents_def Let_def encoderRotated_motorState)

lemma loop_from_homing:
  "motorState s = Homing \<Longrightarrow> motorState (loop s i) \<noteq> Tracking"
  using loop_motorState [of s i] encoderPressed_from_homing [of s]
  by (auto simp add: loopEvents_motorState split: if_splits)

lemma loop_to_homing:
  "motorState s = Tracking \<Longrightarrow> motorState (loop s i) = Homing \<Longrightarrow>
   switchFell i \<and> \<not> editMode s \<and> currentPageIndex s = 4"
  using loop_motorState [of s i] encoderPressed_to_homing [of s]
  by (auto simp add: loopEvents_motorState split: if_splits)

lemma runLoop_through_idle:
  "motorState s = Homing \<Longrightarrow> motorState (runLoop s is) = Tracking \<Longrightarrow>
   \<exists>n. 0 < n \<and> n < length is \<and> motorState (runLoop s (take n is)) = Idle"
proof (induction "is" arbitrary: s)
  case Nil
  then show ?case by simp
next
  case (Cons i "is")
  show ?case
  proof (cases "motorState (loop s i)")
    case Idle
    from Cons.prems(2) Idle have "is \<noteq> []" by auto
    with Idle have "0 < (1::nat) \<and> 1 < length (i # is) \<and>
      motorState (runLoop s (take 1 (i # is))) = Idle" by simp
    then show ?thesis by blast
  next
    case Tracking
    with loop_from_homing [OF Cons.prems(1), of i] show ?thesis by simp
  next
    case Homing
    from Cons.IH [OF Homing] Cons.prems(2) obtain n where
      n: "0 < n" "n < length is" "motorState (runLoop (loop s i) (take n is)) = Idle"
      by auto
    then have "0 < Suc n \<and> Suc n < length (i # is) \<and>
      motorState (runLoop s (take (Suc n) (i # is))) = Idle" by simp
    then show ?thesis by blast
  qed
qed

text \<open>
  C3, as the sketch has it. No pass of \<^verbatim>\<open>loop\<close> takes the motor from Homing to
  Tracking, and every run of passes that starts in Homing and ends in Tracking is in Idle
  after some pass in between. A pass that takes the motor from Tracking to Homing is one
  whose button press is handled outside edit mode on page 4.
\<close>

theorem homing_never_to_tracking:
  "(motorState s = Homing \<longrightarrow> motorState (loop s i) \<noteq> Tracking) \<and>
   (motorState s = Homing \<and> motorState (runLoop s is) = Tracking \<longrightarrow>
      (\<exists>n. 0 < n \<and> n < length is \<and> motorState (runLoop s (take n is)) = Idle)) \<and>
   (motorState s = Tracking \<and> motorState (loop s i) = Homing \<longrightarrow>
      switchFell i \<and> \<not> editMode s \<and> currentPageIndex s = 4)"
  using loop_from_homing [of s i] runLoop_through_idle [of s "is"] loop_to_homing [of s i]
  by blast

theorem homing_never_to_tracking_witness:
  "motorState homingOnHome = Homing \<and>
   motorState (loop homingOnHome press) \<noteq> Tracking \<and>
   motorState (runLoop homingOnHome [rotateCCW, press, press]) = Tracking \<and>
   (\<exists>n. 0 < n \<and> n < length [rotateCCW, press, press] \<and>
      motorState (runLoop homingOnHome (take n [rotateCCW, press, press])) = Idle) \<and>
   motorState trackingOnHome = Tracking \<and> motorState (loop trackingOnHome press) = Homing \<and>
   switchFell press \<and> \<not> editMode trackingOnHome \<and> currentPageIndex trackingOnHome = 4"
proof -
  have h: "motorState homingOnHome = Homing"
    using homingOnHome_eval by (simp add: motorState_def)
  have r: "motorState (runLoop homingOnHome [rotateCCW, press, press]) = Tracking"
    by (simp add: homingOnHome_def run_defs)
  have t: "motorState trackingOnHome = Tracking"
    using trackingOnHome_eval by (simp add: motorState_def)
  have g: "motorState (loop trackingOnHome press) = Homing"
    by (simp add: trackingOnHome_def run_defs)
  show ?thesis
    using homing_never_to_tracking [of homingOnHome press "[rotateCCW, press, press]"]
      homing_never_to_tracking [of trackingOnHome press "[]"] h r t g
    by simp
qed

text \<open>
  C3 as the claim states it fails: after Start on page 3 and one turn to page 4, the
  motor is Tracking, and the pass that handles a press there leaves it Homing.
\<close>

theorem tracking_to_homing_counterexample:
  "reachable trackingOnHome \<and> motorState trackingOnHome = Tracking \<and>
   motorState (loop trackingOnHome press) = Homing"
proof -
  have r: "reachable trackingOnHome"
    unfolding trackingOnHome_def by (rule reachable_runLoop [OF reachable_booted0])
  have t: "motorState trackingOnHome = Tracking"
    using trackingOnHome_eval by (simp add: motorState_def)
  have g: "motorState (loop trackingOnHome press) = Homing"
    by (simp add: trackingOnHome_def run_defs)
  from r t g show ?thesis by simp
qed

subsection \<open>The limit switches\<close>

lemma runTheStepper_stop:
  "(motorState s = Tracking \<and> \<not> endPin) \<or> (motorState s = Homing \<and> \<not> homePin) \<Longrightarrow>
   motorState (runTheStepper s endPin homePin) = Idle \<and>
   count_list (calls (runTheStepper s endPin homePin)) Stepper_runSpeed =
     count_list (calls s) Stepper_runSpeed"
  by (auto simp add: handler_defs motorState_def signed_eq_0_iff split: if_splits)

lemma runTheStepper_step:
  "\<not> ((motorState s = Tracking \<and> \<not> endPin) \<or> (motorState s = Homing \<and> \<not> homePin)) \<Longrightarrow>
   motorState s \<noteq> Idle \<Longrightarrow>
   motorState (runTheStepper s endPin homePin) = motorState s \<and>
   count_list (calls (runTheStepper s endPin homePin)) Stepper_runSpeed =
     count_list (calls s) Stepper_runSpeed + 1"
  by (auto simp add: handler_defs motorState_def signed_eq_0_iff split: if_splits)

lemma runTheStepper_idle: "motorRunning s = 0 \<Longrightarrow> runTheStepper s e h = s"
  by (simp add: runTheStepper_def)

lemma encoderPressed_count:
  "count_list (calls (encoderPressed s)) Stepper_runSpeed = count_list (calls s) Stepper_runSpeed \<and>
   count_list (calls (encoderPressed s)) (DigitalRead END_SWITCH_PIN) =
     count_list (calls s) (DigitalRead END_SWITCH_PIN) \<and>
   count_list (calls (encoderPressed s)) (DigitalRead HOME_SWITCH_PIN) =
     count_list (calls s) (DigitalRead HOME_SWITCH_PIN)"
  by (simp add: handler_defs)

lemma encoderRotated_count:
  "count_list (calls (encoderRotated s dt)) Stepper_runSpeed = count_list (calls s) Stepper_runSpeed \<and>
   count_list (calls (encoderRotated s dt)) (DigitalRead END_SWITCH_PIN) =
     count_list (calls s) (DigitalRead END_SWITCH_PIN) \<and>
   count_list (calls (encoderRotated s dt)) (DigitalRead HOME_SWITCH_PIN) =
     count_list (calls s) (DigitalRead HOME_SWITCH_PIN)"
  by (simp add: handler_defs)

lemma loopEvents_count:
  "count_list (calls (loopEvents s i)) Stepper_runSpeed = count_list (calls s) Stepper_runSpeed \<and>
   count_list (calls (loopEvents s i)) (DigitalRead END_SWITCH_PIN) =
     count_list (calls s) (DigitalRead END_SWITCH_PIN) \<and>
   count_list (calls (loopEvents s i)) (DigitalRead HOME_SWITCH_PIN) =
     count_list (calls s) (DigitalRead HOME_SWITCH_PIN)"
  by (simp add: loopEvents_def Let_def encoderPressed_count encoderRotated_count)

text \<open>
  C7. In a pass of \<^verbatim>\<open>loop\<close> that is outside edit mode once its events are handled:
  when the motor is then Tracking and the end switch reads low, or Homing and the home
  switch reads low, the motor is Idle after the pass and the pass made no call of
  \<^verbatim>\<open>stepper.runSpeed\<close>; otherwise, when the motor is then running, it keeps its state
  and the pass made exactly one such call.
\<close>

theorem limit_switch_stops:
  assumes "\<not> editMode (loopEvents s i)"
  shows "((motorState (loopEvents s i) = Tracking \<and> \<not> endSwitchPin i) \<or>
          (motorState (loopEvents s i) = Homing \<and> \<not> homeSwitchPin i) \<longrightarrow>
            motorState (loop s i) = Idle \<and>
            count_list (calls (loop s i)) Stepper_runSpeed =
              count_list (calls s) Stepper_runSpeed) \<and>
         (\<not> ((motorState (loopEvents s i) = Tracking \<and> \<not> endSwitchPin i) \<or>
              (motorState (loopEvents s i) = Homing \<and> \<not> homeSwitchPin i)) \<and>
          motorState (loopEvents s i) \<noteq> Idle \<longrightarrow>
            motorState (loop s i) = motorState (loopEvents s i) \<and>
            count_list (calls (loop s i)) Stepper_runSpeed =
              count_list (calls s) Stepper_runSpeed + 1)"
proof -
  let ?t = "loopEvents s i"
  have l: "loop s i = runTheStepper ?t (endSwitchPin i) (homeSwitchPin i)"
    using assms by (rule loop_not_edit)
  have c: "count_list (calls ?t) Stepper_runSpeed = count_list (calls s) Stepper_runSpeed"
    by (simp add: loopEvents_count)
  show ?thesis
    unfolding l c [symmetric]
    using runTheStepper_stop [of ?t "endSwitchPin i" "homeSwitchPin i"]
      runTheStepper_step [of ?t "endSwitchPin i" "homeSwitchPin i"]
    by blast
qed

theorem limit_switch_stops_witness:
  "\<not> editMode (loopEvents trackingOnStart endReached) \<and>
   motorState (loopEvents trackingOnStart endReached) = Tracking \<and> \<not> endSwitchPin endReached \<and>
   motorState (loop trackingOnStart endReached) = Idle \<and>
   count_list (calls (loop trackingOnStart endReached)) Stepper_runSpeed =
     count_list (calls trackingOnStart) Stepper_runSpeed \<and>
   \<not> editMode (loopEvents trackingOnStart noEvent) \<and>
   motorState (loopEvents trackingOnStart noEvent) = Tracking \<and> endSwitchPin noEvent \<and>
   motorState (loop trackingOnStart noEvent) = Tracking \<and>
   count_list (calls (loop trackingOnStart noEvent)) Stepper_runSpeed =
     count_list (calls trackingOnStart) Stepper_runSpeed + 1"
proof -
  have e: "loopEvents trackingOnStart endReached = trackingOnStart"
    "loopEvents trackingOnStart noEvent = trackingOnStart"
    by (simp_all add: loopEvents_def endReached_def noEvent_def)
  have t: "motorState trackingOnStart = Tracking"
    using trackingOnStart_eval by (simp add: motorState_def)
  have p: "\<not> endSwitchPin endReached" "endSwitchPin noEvent"
    by (simp_all add: endReached_def noEvent_def)
  show ?thesis
    using limit_switch_stops [of trackingOnStart endReached]
      limit_switch_stops [of trackingOnStart noEvent] e t p trackingOnStart_eval
    by simp
qed

subsection \<open>Edit mode\<close>

lemma loop_edit_count:
  "editMode (loopEvents s i) \<Longrightarrow> c \<noteq> Display_update \<Longrightarrow>
   count_list (calls (loop s i)) c = count_list (calls (loopEvents s i)) c"
  by (simp add: loop_def Let_def updateMainScreen_def issue_def)

lemma encoderPressed_editIdle: "editIdle s \<Longrightarrow> editIdle (encoderPressed s)"
  by (simp add: editIdle_def handler_defs)

lemma encoderRotated_editIdle: "editIdle s \<Longrightarrow> editIdle (encoderRotated s dt)"
  by (simp add: editIdle_def handler_defs)

lemma runTheStepper_editIdle: "editIdle s \<Longrightarrow> editIdle (runTheStepper s e h)"
  by (simp add: editIdle_def handler_defs)

lemma loopEvents_editIdle: "editIdle s \<Longrightarrow> editIdle (loopEvents s i)"
  by (simp add: loopEvents_def Let_def encoderPressed_editIdle encoderRotated_editIdle)

lemma loop_editIdle: "editIdle s \<Longrightarrow> editIdle (loop s i)"
  using loopEvents_editIdle [of s i] runTheStepper_editIdle [of "loopEvents s i"]
  by (auto simp add: loop_def Let_def editIdle_def updateMainScreen_def issue_def)

lemma reachable_editIdle: "reachable s \<Longrightarrow> editIdle s"
proof (induction rule: reachable.induct)
  case (booted ee s)
  then show ?case
    by (auto simp add: setupSketch_def editIdle_def powerOn_def readSpeedConfigFromEeprom_def
        updateMainScreen_def issue_def Let_def)
next
  case (looped s i)
  then show ?case by (simp add: loop_editIdle)
qed

lemma encoderPressed_motor_edit:
  "editMode s \<Longrightarrow> motorRunning (encoderPressed s) = motorRunning s"
  by (simp add: handler_defs)

lemma loopEvents_motor_edit:
  "editMode s \<Longrightarrow> motorRunning (loopEvents s i) = motorRunning s"
  by (simp add: loopEvents_def Let_def encoderPressed_motor_edit encoderRotated_motor)

text \<open>
  C10. In a pass of \<^verbatim>\<open>loop\<close> from a reachable state that is in edit mode when the pass
  begins or when its events have been handled, the pass makes no call of
  \<^verbatim>\<open>stepper.runSpeed\<close> and reads neither limit switch pin, and \<^verbatim>\<open>motorRunning\<close> is
  after the pass what the event handlers left.
\<close>

theorem edit_mode_no_stepping:
  assumes "reachable s" and "editMode s \<or> editMode (loopEvents s i)"
  shows "count_list (calls (loop s i)) Stepper_runSpeed = count_list (calls s) Stepper_runSpeed \<and>
         count_list (calls (loop s i)) (DigitalRead END_SWITCH_PIN) =
           count_list (calls s) (DigitalRead END_SWITCH_PIN) \<and>
         count_list (calls (loop s i)) (DigitalRead HOME_SWITCH_PIN) =
           count_list (calls s) (DigitalRead HOME_SWITCH_PIN) \<and>
         motorRunning (loop s i) = motorRunning (loopEvents s i)"
proof (cases "editMode (loopEvents s i)")
  case True
  then show ?thesis
    using loop_edit_count [OF True] loop_edit_motor [OF True] loopEvents_count [of s i] by simp
next
  case False
  with assms(2) have e: "editMode s" by simp
  with reachable_editIdle [OF assms(1)] have "motorRunning s = 0" by (simp add: editIdle_def)
  with e have "motorRunning (loopEvents s i) = 0" by (simp add: loopEvents_motor_edit)
  then have "loop s i = loopEvents s i"
    using False by (simp add: loop_def Let_def runTheStepper_idle)
  then show ?thesis using loopEvents_count [of s i] by simp
qed

theorem edit_mode_no_stepping_witness:
  "reachable editingSpeed \<and> editMode editingSpeed \<and>
   editMode (loopEvents editingSpeed endReached) \<and>
   count_list (calls (loop editingSpeed endReached)) Stepper_runSpeed =
     count_list (calls editingSpeed) Stepper_runSpeed \<and>
   count_list (calls (loop editingSpeed endReached)) (DigitalRead END_SWITCH_PIN) =
     count_list (calls editingSpeed) (DigitalRead END_SWITCH_PIN) \<and>
   count_list (calls (loop editingSpeed endReached)) (DigitalRead HOME_SWITCH_PIN) =
     count_list (calls editingSpeed) (DigitalRead HOME_SWITCH_PIN) \<and>
   motorRunning (loop editingSpeed endReached) = 0 \<and>
   \<not> editMode (loopEvents editingSpeed press) \<and>
   count_list (calls (loop editingSpeed press)) Stepper_runSpeed =
     count_list (calls editingSpeed) Stepper_runSpeed \<and>
   count_list (calls (loop editingSpeed press)) (DigitalRead END_SWITCH_PIN) =
     count_list (calls editingSpeed) (DigitalRead END_SWITCH_PIN) \<and>
   count_list (calls (loop editingSpeed press)) (DigitalRead HOME_SWITCH_PIN) =
     count_list (calls editingSpeed) (DigitalRead HOME_SWITCH_PIN)"
proof -
  have r: "reachable editingSpeed"
    unfolding editingSpeed_def by (rule reachable_runLoop [OF reachable_booted0])
  have e: "loopEvents editingSpeed endReached = editingSpeed"
    by (simp add: loopEvents_def endReached_def noEvent_def)
  have x: "\<not> editMode (loopEvents editingSpeed press)"
    using editingSpeed_eval by (simp add: loopEvents_def press_def noEvent_def handler_defs)
  show ?thesis
    using edit_mode_no_stepping [of editingSpeed endReached]
      edit_mode_no_stepping [of editingSpeed press] r e x editingSpeed_eval
    by simp
qed

end
